theory Spec2Isabelle
  imports Complex_Main "HOL-Library.Word" "HOL-Library.Log_Nat"
begin

section \<open>ParkingFeeCalculator: data model\<close>

text \<open>
  The contract \<open>ParkingFeeCalculator\<close> (Solidity 0.8.24, checked arithmetic
  outside \<open>unchecked\<close> blocks) is embedded function by function.  Solidity's
  \<open>uint8\<close>, \<open>uint16\<close> and \<open>uint64\<close> are words of that width, \<open>address\<close> is a
  160-bit word, \<open>bytes32\<close> a 256-bit word and \<open>bytes\<close> a list of 8-bit words.
\<close>

type_synonym address = "160 word"
type_synonym bytes32 = "256 word"
type_synonym bytes = "8 word list"

text \<open>
  A failing call either reverts with the message of the \<open>require\<close> that
  failed, reverts inside the input verifier, or panics on checked arithmetic.
\<close>

datatype error = Revert string | InputRejected | Panic

text \<open>The error taxonomy, and the class of each failure of the contract.\<close>

datatype error_kind = NotAuthorizedError | InvalidPolicyError | InvalidProofError | ArithmeticError

definition error_class :: "error \<Rightarrow> error_kind option" where
  "error_class e =
     (case e of
        Revert m \<Rightarrow>
          (if m = ''Not owner'' then Some NotAuthorizedError
           else if m = ''price=0'' \<or> m = ''maxBlocks=0'' \<or> m = ''Zero owner''
             then Some InvalidPolicyError
           else if m = ''Empty proof'' then Some InvalidProofError
           else None)
      | InputRejected \<Rightarrow> Some InvalidProofError
      | Panic \<Rightarrow> Some ArithmeticError)"

subsection \<open>The confidential-computation library\<close>

text \<open>
  Modelled from the spec: the library \<open>FHE\<close>, imported from
  \<open>@fhevm/solidity\<close>, is not part of the repository.  Its types \<open>euint64\<close>,
  \<open>ebool\<close> and \<open>externalEuint64\<close> are \<open>bytes32\<close> handles; the plaintext behind
  a handle lives in the coprocessor.  A ciphertext is modelled as its handle
  together with the plaintext it stands for (a ghost field the contract never
  reads).  How a handle is derived from an operation and its operands, and
  which plaintext an attested external input carries, are parameters of the
  model (record \<open>fhevm\<close>); the plaintext of every operation is the 64-bit
  modular arithmetic of the primitives' contract: \<open>add\<close>, \<open>sub\<close> and \<open>mul\<close>
  wrap modulo \<open>2^64\<close>, \<open>gt\<close> is strict, \<open>select\<close> picks one of two operands,
  and \<open>ingest\<close> fails when the proof is not valid.
\<close>

record euint64 =
  handle :: bytes32
  plain :: "64 word"

record ebool =
  bhandle :: bytes32
  bplain :: bool

datatype fhe_op = FheAdd | FheSub | FheMul | FheGt

record fhevm =
  trivial_handle :: "64 word \<Rightarrow> bytes32"
  binary_handle :: "fhe_op \<Rightarrow> bytes32 \<Rightarrow> bytes32 \<Rightarrow> bytes32"
  select_handle :: "bytes32 \<Rightarrow> bytes32 \<Rightarrow> bytes32 \<Rightarrow> bytes32"
  verify_input :: "bytes32 \<Rightarrow> bytes \<Rightarrow> address \<Rightarrow> 64 word option"

text \<open>The value of a storage slot of type \<open>euint64\<close> that was never written.\<close>

definition uninitialized :: euint64 where
  "uninitialized = \<lparr>handle = 0, plain = 0\<rparr>"

definition asEuint64 :: "fhevm \<Rightarrow> 64 word \<Rightarrow> euint64" where
  "asEuint64 fhe v = \<lparr>handle = trivial_handle fhe v, plain = v\<rparr>"

definition FHE_add :: "fhevm \<Rightarrow> euint64 \<Rightarrow> euint64 \<Rightarrow> euint64" where
  "FHE_add fhe a b =
     \<lparr>handle = binary_handle fhe FheAdd (handle a) (handle b), plain = plain a + plain b\<rparr>"

definition FHE_sub :: "fhevm \<Rightarrow> euint64 \<Rightarrow> euint64 \<Rightarrow> euint64" where
  "FHE_sub fhe a b =
     \<lparr>handle = binary_handle fhe FheSub (handle a) (handle b), plain = plain a - plain b\<rparr>"

definition FHE_mul :: "fhevm \<Rightarrow> euint64 \<Rightarrow> euint64 \<Rightarrow> euint64" where
  "FHE_mul fhe a b =
     \<lparr>handle = binary_handle fhe FheMul (handle a) (handle b), plain = plain a * plain b\<rparr>"

definition FHE_gt :: "fhevm \<Rightarrow> euint64 \<Rightarrow> euint64 \<Rightarrow> ebool" where
  "FHE_gt fhe a b =
     \<lparr>bhandle = binary_handle fhe FheGt (handle a) (handle b), bplain = (plain a > plain b)\<rparr>"

definition FHE_select :: "fhevm \<Rightarrow> ebool \<Rightarrow> euint64 \<Rightarrow> euint64 \<Rightarrow> euint64" where
  "FHE_select fhe c a b =
     \<lparr>handle = select_handle fhe (bhandle c) (handle a) (handle b),
      plain = (if bplain c then plain a else plain b)\<rparr>"

text \<open>
  \<open>FHE.fromExternal\<close> hands the external handle and its proof to the input
  verifier for the calling account; a rejected proof reverts the call.
\<close>

definition fromExternal :: "fhevm \<Rightarrow> address \<Rightarrow> bytes32 \<Rightarrow> bytes \<Rightarrow> error + euint64" where
  "fromExternal fhe sender ext inputProof =
     (case verify_input fhe ext inputProof sender of
        None \<Rightarrow> Inl InputRejected
      | Some v \<Rightarrow> Inr \<lparr>handle = ext, plain = v\<rparr>)"

definition toBytes32 :: "euint64 \<Rightarrow> bytes32" where
  "toBytes32 c = handle c"

subsection \<open>Contract storage\<close>

text \<open>
  The storage of the contract, with the part of its environment it writes to:
  the persistent decryption grants of the access-control list (pairs of a
  handle and an account) and the log of \<open>Quoted\<close> events.  \<open>self\<close> is the
  contract's own address (\<open>address(this)\<close>).
\<close>

record state =
  self :: address
  owner :: address
  pricePerBlock :: "64 word"
  maxBlocks :: "16 word"
  lastFee :: "address \<Rightarrow> euint64"
  acl :: "(bytes32 \<times> address) set"
  events :: "(address \<times> bytes32) list"

definition BLOCK_MINUTES :: "64 word" where
  "BLOCK_MINUTES = 30"

text \<open>
  A transaction that fails is rolled back: the storage after a call is the
  new storage when the call succeeds and the old one when it fails.
\<close>

definition after_call :: "state \<Rightarrow> error + state \<Rightarrow> state" where
  "after_call s r = (case r of Inl e \<Rightarrow> s | Inr s' \<Rightarrow> s')"

section \<open>Ownership and pricing parameters\<close>

definition onlyOwner :: "address \<Rightarrow> state \<Rightarrow> error + state \<Rightarrow> error + state" where
  "onlyOwner sender s body = (if sender = owner s then body else Inl (Revert ''Not owner''))"

definition constructor :: "address \<Rightarrow> address \<Rightarrow> 64 word \<Rightarrow> 16 word \<Rightarrow> error + state" where
  "constructor contract sender pricePerBlock' maxBlocks' =
     (if \<not> pricePerBlock' > 0 then Inl (Revert ''price=0'')
      else if \<not> maxBlocks' > 0 then Inl (Revert ''maxBlocks=0'')
      else Inr \<lparr>self = contract, owner = sender, pricePerBlock = pricePerBlock',
                maxBlocks = maxBlocks', lastFee = (\<lambda>a. uninitialized),
                acl = {}, events = []\<rparr>)"

definition transferOwnership :: "address \<Rightarrow> address \<Rightarrow> state \<Rightarrow> error + state" where
  "transferOwnership sender n s =
     onlyOwner sender s
       (if \<not> n \<noteq> 0 then Inl (Revert ''Zero owner'') else Inr (s\<lparr>owner := n\<rparr>))"

definition setPricePerBlock :: "address \<Rightarrow> 64 word \<Rightarrow> state \<Rightarrow> error + state" where
  "setPricePerBlock sender newPrice s =
     onlyOwner sender s
       (if \<not> newPrice > 0 then Inl (Revert ''price=0'')
        else Inr (s\<lparr>pricePerBlock := newPrice\<rparr>))"

definition setMaxBlocks :: "address \<Rightarrow> 16 word \<Rightarrow> state \<Rightarrow> error + state" where
  "setMaxBlocks sender newMax s =
     onlyOwner sender s
       (if \<not> newMax > 0 then Inl (Revert ''maxBlocks=0'')
        else Inr (s\<lparr>maxBlocks := newMax\<rparr>))"

definition getMyFeeHandle :: "address \<Rightarrow> state \<Rightarrow> bytes32" where
  "getMyFeeHandle sender s = toBytes32 (lastFee s sender)"

section \<open>The fee computation\<close>

text \<open>
  \<open>_msbPos\<close>: the loop \<open>while (x > 1) { x >>= 1; ++p; }\<close> with the \<open>uint8\<close>
  counter incremented unchecked (it wraps).
\<close>

function msbPos_loop :: "16 word \<Rightarrow> 8 word \<Rightarrow> 8 word" where
  "msbPos_loop x p = (if x > 1 then msbPos_loop (drop_bit 1 x) (p + 1) else p)"
  by pat_completeness auto
termination
proof (relation "measure (\<lambda>(x, p). unat x)")
  show "wf (measure (\<lambda>(x :: 16 word, p :: 8 word). unat x))" by simp
next
  fix x :: "16 word" and p :: "8 word"
  assume "1 < x"
  then have "0 < unat x" by (simp add: word_less_nat_alt)
  then have "unat x div 2 < unat x" by simp
  then show "((drop_bit 1 x, p + 1), (x, p)) \<in> measure (\<lambda>(x, p). unat x)"
    by (simp add: drop_bit_eq_div unat_div)
qed

definition msbPos :: "16 word \<Rightarrow> 8 word" where
  "msbPos x = msbPos_loop x 0"

text \<open>Checked arithmetic: overflow and underflow panic.\<close>

definition checked_add8 :: "8 word \<Rightarrow> 8 word \<Rightarrow> error + 8 word" where
  "checked_add8 a b = (if unat a + unat b < 2 ^ 8 then Inr (a + b) else Inl Panic)"

definition checked_mul64 :: "64 word \<Rightarrow> 64 word \<Rightarrow> error + 64 word" where
  "checked_mul64 a b = (if unat a * unat b < 2 ^ 64 then Inr (a * b) else Inl Panic)"

definition checked_sub64 :: "64 word \<Rightarrow> 64 word \<Rightarrow> error + 64 word" where
  "checked_sub64 a b = (if unat b \<le> unat a then Inr (a - b) else Inl Panic)"

text \<open>
  The subtraction ladder, the loop \<open>for (uint8 ki = kMax + 1; ki > 0; )\<close> whose
  body first decrements \<open>ki\<close> (unchecked).  The last argument is a ghost
  counter of the loop bodies executed; it is returned with the remainder and
  the block count.
\<close>

function ladder ::
  "fhevm \<Rightarrow> 8 word \<Rightarrow> euint64 \<Rightarrow> euint64 \<Rightarrow> nat \<Rightarrow> error + (euint64 \<times> euint64 \<times> nat)" where
  "ladder fhe ki rem blocks n =
     (if ki > 0 then
        (let k = ki - 1 in
         case checked_mul64 BLOCK_MINUTES (push_bit (unat k) 1) of
           Inl e \<Rightarrow> Inl e
         | Inr chunk \<Rightarrow>
             (case checked_sub64 chunk 1 of
                Inl e \<Rightarrow> Inl e
              | Inr chunk1 \<Rightarrow>
                  (let ge = FHE_gt fhe rem (asEuint64 fhe chunk1);
                       remMinus = FHE_sub fhe rem (asEuint64 fhe chunk);
                       rem' = FHE_select fhe ge remMinus rem;
                       addBy = asEuint64 fhe (push_bit (unat k) 1);
                       blocksPlus = FHE_add fhe blocks addBy;
                       blocks' = FHE_select fhe ge blocksPlus blocks
                   in ladder fhe k rem' blocks' (Suc n))))
      else Inr (rem, blocks, n))"
  by pat_completeness auto
termination
proof (relation "measure (\<lambda>(fhe, ki, rem, blocks, n). unat ki)")
  show "wf (measure (\<lambda>(fhe :: fhevm, ki :: 8 word, rem :: euint64, blocks :: euint64, n :: nat). unat ki))"
    by simp
next
  fix fhe :: fhevm and ki k :: "8 word" and rem blocks rem' blocks' :: euint64 and n :: nat
  assume "0 < ki" and "k = ki - 1"
  from \<open>0 < ki\<close> have "ki \<noteq> 0" and "0 < unat ki"
    by (auto simp: word_less_nat_alt)
  then have "unat (ki - 1) < unat ki"
    by (simp add: unat_minus_one)
  with \<open>k = ki - 1\<close>
  show "((fhe, k, rem', blocks', Suc n), (fhe, ki, rem, blocks, n))
          \<in> measure (\<lambda>(fhe, ki, rem, blocks, n). unat ki)"
    by simp
qed

text \<open>
  Step 2 of \<open>quote\<close>: the block count starts at the constant 0, the ladder
  runs from \<open>ki = kMax + 1\<close> (a checked \<open>uint8\<close> addition), and one block is
  added when a remainder is left.  The ghost iteration count of the ladder is
  returned beside the block count.
\<close>

definition quote_ceil :: "fhevm \<Rightarrow> 16 word \<Rightarrow> euint64 \<Rightarrow> error + (euint64 \<times> nat)" where
  "quote_ceil fhe maxBlocks' rem0 =
     (let blocks0 = asEuint64 fhe 0; kMax = msbPos maxBlocks' in
      case checked_add8 kMax 1 of
        Inl e \<Rightarrow> Inl e
      | Inr ki \<Rightarrow>
          (case ladder fhe ki rem0 blocks0 0 of
             Inl e \<Rightarrow> Inl e
           | Inr (rem, blocks, n) \<Rightarrow>
               (let hasRem = FHE_gt fhe rem (asEuint64 fhe 0)
                in Inr (FHE_select fhe hasRem (FHE_add fhe blocks (asEuint64 fhe 1)) blocks, n))))"

text \<open>Step 3 of \<open>quote\<close>: the cap; \<open>maxBlocks\<close> is widened from \<open>uint16\<close> to \<open>uint64\<close>.\<close>

definition quote_cap :: "fhevm \<Rightarrow> 16 word \<Rightarrow> euint64 \<Rightarrow> euint64" where
  "quote_cap fhe maxBlocks' blocks =
     (let tooMany = FHE_gt fhe blocks (asEuint64 fhe (ucast maxBlocks'))
      in FHE_select fhe tooMany (asEuint64 fhe (ucast maxBlocks')) blocks)"

text \<open>The persistent grants \<open>FHE.allowThis\<close> and \<open>FHE.allow\<close>.\<close>

definition FHE_allow :: "euint64 \<Rightarrow> address \<Rightarrow> state \<Rightarrow> state" where
  "FHE_allow c a s = s\<lparr>acl := insert (handle c, a) (acl s)\<rparr>"

definition FHE_allowThis :: "euint64 \<Rightarrow> state \<Rightarrow> state" where
  "FHE_allowThis c s = FHE_allow c (self s) s"

definition quote :: "fhevm \<Rightarrow> address \<Rightarrow> bytes32 \<Rightarrow> bytes \<Rightarrow> state \<Rightarrow> error + (bytes32 \<times> state)" where
  "quote fhe sender minutesExt inputProof s =
     (if \<not> length inputProof > 0 then Inl (Revert ''Empty proof'')
      else
        case fromExternal fhe sender minutesExt inputProof of
          Inl e \<Rightarrow> Inl e
        | Inr rem \<Rightarrow>
            (case quote_ceil fhe (maxBlocks s) rem of
               Inl e \<Rightarrow> Inl e
             | Inr (blocks, n) \<Rightarrow>
                 (let blocks' = quote_cap fhe (maxBlocks s) blocks;
                      fee = FHE_mul fhe blocks' (asEuint64 fhe (pricePerBlock s));
                      s1 = s\<lparr>lastFee := (lastFee s)(sender := fee)\<rparr>;
                      s2 = FHE_allowThis (lastFee s1 sender) s1;
                      s3 = FHE_allow (lastFee s2 sender) sender s2;
                      feeHandle = toBytes32 (lastFee s3 sender)
                  in Inr (feeHandle, s3\<lparr>events := events s3 @ [(sender, feeHandle)]\<rparr>))))"

definition after_quote :: "state \<Rightarrow> error + (bytes32 \<times> state) \<Rightarrow> state" where
  "after_quote s r = (case r of Inl e \<Rightarrow> s | Inr (h, s') \<Rightarrow> s')"

text \<open>
  The states of a deployment: the one a successful construction leaves, and
  those a successful state-changing call leads to (a failed call changes
  nothing, and the remaining functions are views).
\<close>

inductive reachable :: "fhevm \<Rightarrow> state \<Rightarrow> bool" for fhe :: fhevm where
  deployed: "constructor contract sender p m = Inr s \<Longrightarrow> reachable fhe s"
| transferred: "reachable fhe s \<Longrightarrow> transferOwnership sender n s = Inr s' \<Longrightarrow> reachable fhe s'"
| price_set: "reachable fhe s \<Longrightarrow> setPricePerBlock sender p s = Inr s' \<Longrightarrow> reachable fhe s'"
| max_set: "reachable fhe s \<Longrightarrow> setMaxBlocks sender m s = Inr s' \<Longrightarrow> reachable fhe s'"
| quoted: "reachable fhe s \<Longrightarrow> quote fhe sender ext inputProof s = Inr (h, s') \<Longrightarrow> reachable fhe s'"

text \<open>Ceiling division on natural numbers, \<open>ceil (m / b)\<close>.\<close>

definition ceil_div :: "nat \<Rightarrow> nat \<Rightarrow> nat" where
  "ceil_div m b = (m + b - 1) div b"

text \<open>
  The handle of the most recent \<open>Quoted\<close> event of an account in the event
  log (the log is in chronological order), if the account has one.  Every
  successful \<open>quote\<close> emits exactly one such event.
\<close>

fun latest_handle :: "address \<Rightarrow> (address \<times> bytes32) list \<Rightarrow> bytes32 option" where
  "latest_handle a [] = None"
| "latest_handle a (e # es) =
     (case latest_handle a es of
        Some h \<Rightarrow> Some h
      | None \<Rightarrow> (if fst e = a then Some (snd e) else None))"

subsection \<open>A concrete deployment\<close>

text \<open>
  A small instance of the library parameters, used to run the model on
  concrete inputs: handles are derived by simple arithmetic, and the input
  verifier accepts the one-byte proof \<open>[1]\<close>, reading the plaintext off the
  external handle.
\<close>

definition toy_fhevm :: fhevm where
  "toy_fhevm =
     \<lparr>trivial_handle = (\<lambda>v. ucast v + 1000),
      binary_handle = (\<lambda>op a b. a + b + 1),
      select_handle = (\<lambda>c a b. c + a + b + 7),
      verify_input = (\<lambda>ext inputProof a. if inputProof = [1] then Some (ucast ext) else None)\<rparr>"

text \<open>The state right after \<open>constructor(price, cap)\<close>, deployed at address 99 by account 1.\<close>

definition deployment :: "64 word \<Rightarrow> 16 word \<Rightarrow> state" where
  "deployment price cap =
     \<lparr>self = 99, owner = 1, pricePerBlock = price, maxBlocks = cap,
      lastFee = (\<lambda>a. uninitialized), acl = {}, events = []\<rparr>"

section \<open>Auxiliary facts\<close>

declare msbPos_loop.simps [simp del]
declare ladder.simps [simp del]

lemma unat_push_bit_1_64: "j < 64 \<Longrightarrow> unat (push_bit j 1 :: 64 word) = 2 ^ j"
  by (subst unsigned_push_bit_eq) (simp add: take_bit_nat_eq_self_iff)

lemma unat_2p_64: "j < 64 \<Longrightarrow> unat (2 ^ j :: 64 word) = 2 ^ j"
  using unat_push_bit_1_64 [of j] by (simp only: push_bit_of_1)

lemma unat_ucast_16_64: "unat (ucast (x :: 16 word) :: 64 word) = unat x"
proof -
  have "unat x < 2 ^ 16" using unsigned_less [of x] by simp
  then have "unat x < 2 ^ 64" by simp
  then show ?thesis by (simp add: unsigned_ucast_eq take_bit_nat_eq_self_iff)
qed

lemma msbPos_loop_between:
  "2 ^ n \<le> unat x \<Longrightarrow> unat x < 2 ^ Suc n \<Longrightarrow> msbPos_loop x p = p + of_nat n"
proof (induction n arbitrary: x p)
  case 0
  then have "unat x = 1" by simp
  then have "\<not> 1 < x" by (simp add: word_less_nat_alt)
  then show ?case by (simp add: msbPos_loop.simps [of x])
next
  case (Suc n)
  have "(1::nat) \<le> 2 ^ n" by simp
  moreover from Suc.prems have "2 * 2 ^ n \<le> unat x" by simp
  ultimately have "1 < unat x" by linarith
  then have gt: "1 < x" by (simp add: word_less_nat_alt)
  have u: "unat (drop_bit 1 x) = unat x div 2"
    by (simp add: drop_bit_eq_div unat_div)
  have "2 ^ n \<le> unat (drop_bit 1 x)" "unat (drop_bit 1 x) < 2 ^ Suc n"
    using Suc.prems unfolding u by simp_all
  then have "msbPos_loop (drop_bit 1 x) (p + 1) = p + 1 + of_nat n"
    by (rule Suc.IH)
  with gt show ?case by (simp add: msbPos_loop.simps [of x])
qed

lemma msbPos_between:
  assumes "1 \<le> unat x"
  shows "2 ^ unat (msbPos x) \<le> unat x \<and> unat x < 2 ^ (unat (msbPos x) + 1) \<and> unat (msbPos x) \<le> 15"
proof -
  from ex_power_ivl1 [of 2 "unat x"] assms
  obtain n where n: "2 ^ n \<le> unat x" "unat x < 2 ^ (n + 1)" by auto
  have "unat x < 2 ^ 16" using unsigned_less [of x] by simp
  with n(1) have "(2::nat) ^ n < 2 ^ 16" by simp
  then have n16: "n < 16" by (simp only: power_strict_increasing_iff) 
  from n have "msbPos x = of_nat n"
    by (simp add: msbPos_def msbPos_loop_between)
  moreover from n16 have "unat (of_nat n :: 8 word) = n"
    by (simp add: unat_of_nat)
  ultimately show ?thesis using n n16 by simp
qed

lemma msbPos_zero: "msbPos 0 = 0"
  by (simp add: msbPos_def msbPos_loop.simps [of 0])

lemma chunk_bound: "j \<le> 15 \<Longrightarrow> 30 * (2::nat) ^ j < 2 ^ 64"
proof -
  assume "j \<le> 15"
  then have "(2::nat) ^ j \<le> 2 ^ 15" by (simp only: power_increasing_iff)
  then show ?thesis by simp
qed

lemma ladder_step:
  assumes ki: "unat ki = Suc j" and j: "j \<le> 15"
  shows "\<exists>chunk :: 64 word. unat chunk = 30 * 2 ^ j \<and>
         ladder fhe ki rem blocks n =
           ladder fhe (ki - 1)
             (FHE_select fhe (FHE_gt fhe rem (asEuint64 fhe (chunk - 1)))
                (FHE_sub fhe rem (asEuint64 fhe chunk)) rem)
             (FHE_select fhe (FHE_gt fhe rem (asEuint64 fhe (chunk - 1)))
                (FHE_add fhe blocks (asEuint64 fhe (push_bit j 1))) blocks)
             (Suc n)"
proof -
  from ki have pos: "0 < ki" by (simp add: word_less_nat_alt)
  then have "ki \<noteq> 0" by auto
  with ki have k: "unat (ki - 1) = j" by (simp add: unat_minus_one)
  from j have "j < 64" by simp
  then have p: "unat (push_bit j 1 :: 64 word) = 2 ^ j"
    by (rule unat_push_bit_1_64)
  have b: "unat BLOCK_MINUTES = 30" by (simp add: BLOCK_MINUTES_def)
  from chunk_bound [OF j] have lt: "unat BLOCK_MINUTES * unat (push_bit j 1 :: 64 word) < 2 ^ 64"
    by (simp only: p b)
  then have m: "checked_mul64 BLOCK_MINUTES (push_bit j 1) = Inr (BLOCK_MINUTES * push_bit j 1)"
    by (simp only: checked_mul64_def if_True)
  from lt have c: "unat (BLOCK_MINUTES * push_bit j 1 :: 64 word) = 30 * 2 ^ j"
    using unat_mult_lem [of BLOCK_MINUTES "push_bit j 1 :: 64 word"] by (simp only: p b) simp
  have "(1::nat) \<le> 2 ^ j" by simp
  then have "unat (1 :: 64 word) \<le> unat (BLOCK_MINUTES * push_bit j 1 :: 64 word)"
    by (simp only: c unat_1)
  then have s: "checked_sub64 (BLOCK_MINUTES * push_bit j 1) 1 = Inr (BLOCK_MINUTES * push_bit j 1 - 1)"
    by (simp only: checked_sub64_def if_True)
  have "ladder fhe ki rem blocks n =
           ladder fhe (ki - 1)
             (FHE_select fhe (FHE_gt fhe rem (asEuint64 fhe (BLOCK_MINUTES * push_bit j 1 - 1)))
                (FHE_sub fhe rem (asEuint64 fhe (BLOCK_MINUTES * push_bit j 1))) rem)
             (FHE_select fhe (FHE_gt fhe rem (asEuint64 fhe (BLOCK_MINUTES * push_bit j 1 - 1)))
                (FHE_add fhe blocks (asEuint64 fhe (push_bit j 1))) blocks)
             (Suc n)"
    by (subst ladder.simps) (simp only: pos if_True Let_def k m s sum.case)
  with c show ?thesis by blast
qed

lemma ladder_arith_ge:
  "1 \<le> c \<Longrightarrow> 30 * c \<le> m \<Longrightarrow>
     min (m div 30) (2 * c - 1) = c + min ((m - 30 * c) div 30) (c - 1)" for c m :: nat
  by arith

lemma ladder_arith_lt:
  "1 \<le> c \<Longrightarrow> \<not> 30 * c \<le> m \<Longrightarrow> min (m div 30) (2 * c - 1) = min (m div 30) (c - 1)"
  for c m :: nat
  by arith

lemma ladder_plain:
  "unat ki = j \<Longrightarrow> j \<le> 16 \<Longrightarrow> unat (plain blocks) + 2 ^ j \<le> 2 ^ 64 \<Longrightarrow>
   \<exists>r b. ladder fhe ki rem blocks n = Inr (r, b, n + j) \<and>
         unat (plain b) = unat (plain blocks) + min (unat (plain rem) div 30) (2 ^ j - 1) \<and>
         unat (plain r) = unat (plain rem) - 30 * min (unat (plain rem) div 30) (2 ^ j - 1)"
proof (induction j arbitrary: ki rem blocks n)
  case 0
  then have "\<not> 0 < ki" by (simp add: word_less_nat_alt)
  then show ?case by (simp add: ladder.simps [of fhe ki])
next
  case (Suc j)
  from Suc.prems have j: "j \<le> 15" by simp
  obtain chunk :: "64 word" where chunk: "unat chunk = 30 * 2 ^ j"
    and step: "ladder fhe ki rem blocks n =
           ladder fhe (ki - 1)
             (FHE_select fhe (FHE_gt fhe rem (asEuint64 fhe (chunk - 1)))
                (FHE_sub fhe rem (asEuint64 fhe chunk)) rem)
             (FHE_select fhe (FHE_gt fhe rem (asEuint64 fhe (chunk - 1)))
                (FHE_add fhe blocks (asEuint64 fhe (push_bit j 1))) blocks)
             (Suc n)"
    using ladder_step [OF Suc.prems(1) j, of fhe rem blocks n] by blast
  define m where "m = unat (plain rem)"
  define c :: nat where "c = 2 ^ j"
  have c1: "1 \<le> c" by (simp add: c_def)
  define ge where "ge = FHE_gt fhe rem (asEuint64 fhe (chunk - 1))"
  define rem' where "rem' = FHE_select fhe ge (FHE_sub fhe rem (asEuint64 fhe chunk)) rem"
  define blocks' where
    "blocks' = FHE_select fhe ge (FHE_add fhe blocks (asEuint64 fhe (push_bit j 1))) blocks"
  from chunk c1 have "chunk \<noteq> 0" by (auto simp: c_def)
  then have "unat (chunk - 1) = 30 * c - 1"
    by (simp add: unat_minus_one chunk c_def)
  then have ge: "bplain ge \<longleftrightarrow> 30 * c \<le> m"
    using c1 by (simp add: ge_def FHE_gt_def asEuint64_def word_less_nat_alt m_def) linarith
  have rem': "unat (plain rem') = (if 30 * c \<le> m then m - 30 * c else m)"
  proof (cases "30 * c \<le> m")
    case True
    then have "chunk \<le> plain rem" by (simp add: word_le_nat_alt chunk m_def c_def)
    then have "unat (plain rem - chunk) = m - 30 * c"
      by (simp add: unat_sub chunk m_def c_def)
    with True ge show ?thesis
      by (simp add: rem'_def FHE_select_def FHE_sub_def asEuint64_def)
  next
    case False
    with ge show ?thesis by (simp add: rem'_def FHE_select_def m_def)
  qed
  from Suc.prems(3) have room: "unat (plain blocks) + 2 * c \<le> 2 ^ 64"
    by (simp add: c_def)
  from j have pj: "unat (push_bit j 1 :: 64 word) = c"
    by (simp only: c_def) (rule unat_push_bit_1_64, simp)
  from room c1 have "unat (plain blocks) + unat (push_bit j 1 :: 64 word) < 2 ^ LENGTH(64)"
    by (simp only: pj) simp
  then have "unat (plain blocks + push_bit j 1) = unat (plain blocks) + unat (push_bit j 1 :: 64 word)"
    by (simp only: unat_add_lem)
  then have "unat (plain blocks + push_bit j 1) = unat (plain blocks) + c"
    by (simp only: pj)
  then have blocks': "unat (plain blocks') = (if 30 * c \<le> m then unat (plain blocks) + c else unat (plain blocks))"
    using ge by (simp add: blocks'_def FHE_select_def FHE_add_def asEuint64_def del: push_bit_of_1)
  from Suc.prems(1) have "ki \<noteq> 0" by auto
  with Suc.prems(1) have k: "unat (ki - 1) = j" by (simp add: unat_minus_one)
  have room': "unat (plain blocks') + 2 ^ j \<le> 2 ^ 64"
    using room blocks' by (simp add: c_def split: if_splits)
  from j have j16: "j \<le> 16" by simp
  have "\<exists>r b. ladder fhe (ki - 1) rem' blocks' (Suc n) = Inr (r, b, Suc n + j) \<and>
         unat (plain b) = unat (plain blocks') + min (unat (plain rem') div 30) (2 ^ j - 1) \<and>
         unat (plain r) = unat (plain rem') - 30 * min (unat (plain rem') div 30) (2 ^ j - 1)"
    by (rule Suc.IH [OF k j16 room'])
  then obtain r b where rb: "ladder fhe (ki - 1) rem' blocks' (Suc n) = Inr (r, b, Suc n + j)"
    "unat (plain b) = unat (plain blocks') + min (unat (plain rem') div 30) (c - 1)"
    "unat (plain r) = unat (plain rem') - 30 * min (unat (plain rem') div 30) (c - 1)"
    unfolding c_def by blast
  from step rb(1) have run: "ladder fhe ki rem blocks n = Inr (r, b, n + Suc j)"
    by (simp add: rem'_def blocks'_def ge_def del: push_bit_of_1)
  have p2: "(2::nat) ^ Suc j = 2 * c" by (simp add: c_def)
  have "unat (plain b) = unat (plain blocks) + min (m div 30) (2 * c - 1) \<and>
        unat (plain r) = m - 30 * min (m div 30) (2 * c - 1)"
  proof (cases "30 * c \<le> m")
    case True
    with rb(2,3) rem' blocks' ladder_arith_ge [OF c1 True] show ?thesis
      by simp
  next
    case False
    with rb(2,3) rem' blocks' ladder_arith_lt [OF c1 False] show ?thesis
      by simp
  qed
  with run show ?case unfolding p2 m_def by blast
qed

lemmas unat_add_exact = unat_add_lem [THEN iffD1]

lemma msbPos_bounds:
  "unat (msbPos mb) \<le> 15 \<and> unat mb < 2 ^ (unat (msbPos mb) + 1)"
proof (cases "mb = 0")
  case True
  then show ?thesis by (simp add: msbPos_zero)
next
  case False
  then have "1 \<le> unat mb" by (simp add: unat_gt_0 Suc_le_eq)
  from msbPos_between [OF this] show ?thesis by simp
qed

lemma ceil_arith:
  "1 \<le> C \<Longrightarrow> q = min (m div 30) (C - 1) \<Longrightarrow>
     q + (if 0 < m - 30 * q then 1 else 0) = min ((m + 29) div 30) C" for C m q :: nat
  by (auto split: if_splits; arith)

lemma quote_ceil_plain:
  "\<exists>b. quote_ceil fhe mb rem = Inr (b, unat (msbPos mb) + 1) \<and>
       unat (plain b) = min (ceil_div (unat (plain rem)) 30) (2 ^ (unat (msbPos mb) + 1))"
proof -
  define K where "K = unat (msbPos mb) + 1"
  define m where "m = unat (plain rem)"
  from msbPos_bounds [of mb] have K16: "K \<le> 16" by (simp add: K_def)
  then have "unat (msbPos mb) + unat (1 :: 8 word) < 2 ^ LENGTH(8)" by (simp add: K_def)
  then have "unat (msbPos mb + 1) = unat (msbPos mb) + unat (1 :: 8 word)"
    by (rule unat_add_exact)
  then have ki: "unat (msbPos mb + 1) = K"
    by (simp add: K_def)
  from K16 have add: "checked_add8 (msbPos mb) 1 = Inr (msbPos mb + 1)"
    by (simp add: checked_add8_def K_def)
  have "(2::nat) ^ K \<le> 2 ^ 16" using K16 by (simp only: power_increasing_iff)
  then have K64: "(2::nat) ^ K \<le> 65536" by simp
  then have "unat (plain (asEuint64 fhe 0)) + 2 ^ K \<le> 2 ^ 64"
    by (simp add: asEuint64_def)
  from ladder_plain [OF ki K16 this, of fhe rem 0]
  obtain r b where run: "ladder fhe (msbPos mb + 1) rem (asEuint64 fhe 0) 0 = Inr (r, b, K)"
    and b: "unat (plain b) = min (m div 30) (2 ^ K - 1)"
    and r: "unat (plain r) = m - 30 * min (m div 30) (2 ^ K - 1)"
    by (auto simp: asEuint64_def m_def)
  define out where
    "out = FHE_select fhe (FHE_gt fhe r (asEuint64 fhe 0)) (FHE_add fhe b (asEuint64 fhe 1)) b"
  from add run have res: "quote_ceil fhe mb rem = Inr (out, K)"
    by (simp add: quote_ceil_def out_def Let_def)
  have hasRem: "bplain (FHE_gt fhe r (asEuint64 fhe 0)) \<longleftrightarrow> 0 < unat (plain r)"
    by (simp add: FHE_gt_def asEuint64_def word_less_nat_alt)
  from b K64 have "unat (plain b) + unat (1 :: 64 word) < 2 ^ LENGTH(64)" by simp
  then have "unat (plain b + 1) = unat (plain b) + unat (1 :: 64 word)"
    by (rule unat_add_exact)
  then have "unat (plain b + 1) = unat (plain b) + 1"
    by simp
  with hasRem have "unat (plain out) = unat (plain b) + (if 0 < unat (plain r) then 1 else 0)"
    by (simp add: out_def FHE_select_def FHE_add_def asEuint64_def)
  also have "\<dots> = min ((m + 29) div 30) (2 ^ K)"
    using ceil_arith [of "2 ^ K" "unat (plain b)" m] b r by simp
  finally have "unat (plain out) = min (ceil_div m 30) (2 ^ K)"
    by (simp add: ceil_div_def)
  with res show ?thesis unfolding K_def m_def by blast
qed

lemma quote_cap_plain:
  "unat (plain (quote_cap fhe mb b)) = min (unat (plain b)) (unat mb)"
  by (simp add: quote_cap_def Let_def FHE_select_def FHE_gt_def asEuint64_def
      word_less_nat_alt unat_ucast_16_64 min_def)

lemma ceil_div_real: "ceil_div m 30 = nat \<lceil>real m / 30\<rceil>"
proof -
  have "\<lceil>real m / 30\<rceil> = \<lceil>real_of_int (int m) / real_of_int 30\<rceil>" by simp
  also have "\<dots> = - (- int m div 30)" by (simp only: ceiling_divide_eq_div)
  also have "\<dots> = int ((m + 29) div 30)" by (simp add: zdiv_int)
  finally show ?thesis by (simp add: ceil_div_def)
qed

lemma blocks_plain:
  assumes "quote_ceil fhe mb rem = Inr (b, n)"
  shows "unat (plain (quote_cap fhe mb b)) = min (ceil_div (unat (plain rem)) 30) (unat mb)"
proof -
  from quote_ceil_plain [of fhe mb rem] assms
  have "unat (plain b) = min (ceil_div (unat (plain rem)) 30) (2 ^ (unat (msbPos mb) + 1))"
    by auto
  moreover from msbPos_bounds [of mb] have "unat mb < 2 ^ (unat (msbPos mb) + 1)" by simp
  ultimately show ?thesis by (simp add: quote_cap_plain)
qed

lemma fee_plain:
  "unat (plain (FHE_mul fhe x (asEuint64 fhe p))) = (unat (plain x) * unat p) mod 2 ^ 64"
  by (simp add: FHE_mul_def asEuint64_def unat_word_ariths)

lemma quote_Inr:
  assumes "quote fhe sender ext inputProof s = Inr (h, s')"
  shows "\<exists>v b n fee. inputProof \<noteq> [] \<and> verify_input fhe ext inputProof sender = Some v \<and>
           quote_ceil fhe (maxBlocks s) \<lparr>handle = ext, plain = v\<rparr> = Inr (b, n) \<and>
           fee = FHE_mul fhe (quote_cap fhe (maxBlocks s) b) (asEuint64 fhe (pricePerBlock s)) \<and>
           h = handle fee \<and>
           s' = s\<lparr>lastFee := (lastFee s)(sender := fee),
                  acl := insert (handle fee, sender) (insert (handle fee, self s) (acl s)),
                  events := events s @ [(sender, handle fee)]\<rparr>"
  using assms
  by (auto simp: quote_def fromExternal_def Let_def FHE_allow_def FHE_allowThis_def toBytes32_def
      split: if_splits option.splits sum.splits)

lemma quote_run:
  assumes "inputProof \<noteq> []" and "verify_input fhe ext inputProof sender = Some v"
  shows "\<exists>b fee. quote_ceil fhe (maxBlocks s) \<lparr>handle = ext, plain = v\<rparr>
                     = Inr (b, unat (msbPos (maxBlocks s)) + 1) \<and>
           fee = FHE_mul fhe (quote_cap fhe (maxBlocks s) b) (asEuint64 fhe (pricePerBlock s)) \<and>
           quote fhe sender ext inputProof s =
             Inr (handle fee,
                  s\<lparr>lastFee := (lastFee s)(sender := fee),
                    acl := insert (handle fee, sender) (insert (handle fee, self s) (acl s)),
                    events := events s @ [(sender, handle fee)]\<rparr>)"
proof -
  from quote_ceil_plain [of fhe "maxBlocks s" "\<lparr>handle = ext, plain = v\<rparr>"]
  obtain b where b: "quote_ceil fhe (maxBlocks s) \<lparr>handle = ext, plain = v\<rparr>
                     = Inr (b, unat (msbPos (maxBlocks s)) + 1)" by blast
  with assms show ?thesis
    by (simp add: quote_def fromExternal_def Let_def FHE_allow_def FHE_allowThis_def toBytes32_def)
qed

lemma latest_handle_append:
  "latest_handle a (es @ [e]) = (if fst e = a then Some (snd e) else latest_handle a es)"
  by (induction es) (auto split: option.splits)

lemma reachable_policy: "reachable fhe s \<Longrightarrow> 0 < pricePerBlock s \<and> 0 < maxBlocks s"
proof (induction rule: reachable.induct)
  case (deployed contract sender p m s)
  then show ?case by (auto simp: constructor_def split: if_splits)
next
  case (transferred s sender n s')
  then show ?case by (auto simp: transferOwnership_def onlyOwner_def split: if_splits)
next
  case (price_set s sender p s')
  then show ?case by (auto simp: setPricePerBlock_def onlyOwner_def split: if_splits)
next
  case (max_set s sender m s')
  then show ?case by (auto simp: setMaxBlocks_def onlyOwner_def split: if_splits)
next
  case (quoted s sender ext inputProof h s')
  from quote_Inr [OF quoted.hyps(2)] quoted.IH show ?case by auto
qed

lemma reachable_handle:
  "reachable fhe s \<Longrightarrow>
     getMyFeeHandle a s = (case latest_handle a (events s) of None \<Rightarrow> 0 | Some h \<Rightarrow> h)"
proof (induction rule: reachable.induct)
  case (deployed contract sender p m s)
  then show ?case
    by (auto simp: constructor_def getMyFeeHandle_def toBytes32_def uninitialized_def
        split: if_splits)
next
  case (transferred s sender n s')
  then show ?case
    by (auto simp: transferOwnership_def onlyOwner_def getMyFeeHandle_def split: if_splits)
next
  case (price_set s sender p s')
  then show ?case
    by (auto simp: setPricePerBlock_def onlyOwner_def getMyFeeHandle_def split: if_splits)
next
  case (max_set s sender m s')
  then show ?case
    by (auto simp: setMaxBlocks_def onlyOwner_def getMyFeeHandle_def split: if_splits)
next
  case (quoted s sender ext inputProof h s')
  from quote_Inr [OF quoted.hyps(2)] quoted.IH show ?case
    by (auto simp: getMyFeeHandle_def toBytes32_def latest_handle_append)
qed

lemma msbPos_log:
  assumes "0 < mb"
  shows "int (unat (msbPos mb)) = \<lfloor>log 2 (real (unat mb))\<rfloor>"
proof -
  from assms have "1 \<le> unat mb" by (simp add: word_less_nat_alt)
  from msbPos_between [OF this]
  have "2 ^ unat (msbPos mb) \<le> unat mb" "unat mb < 2 ^ (unat (msbPos mb) + 1)" by simp_all
  from floor_log_nat_eq_if [OF this] show ?thesis by simp
qed

text \<open>The equations that run the model on concrete inputs.\<close>

lemmas run_defs = quote_def quote_ceil_def quote_cap_def msbPos_def checked_add8_def checked_mul64_def
  checked_sub64_def FHE_add_def FHE_sub_def FHE_mul_def FHE_gt_def FHE_select_def asEuint64_def
  toy_fhevm_def deployment_def fromExternal_def Let_def BLOCK_MINUTES_def FHE_allow_def
  FHE_allowThis_def toBytes32_def msbPos_loop.simps ladder.simps

lemma latest_handle_None: "latest_handle a es = None \<longleftrightarrow> a \<notin> fst ` set es"
  by (induction es) (auto split: option.splits)

lemma ceil_div_mono: "m \<le> m' \<Longrightarrow> ceil_div m 30 \<le> ceil_div m' 30"
  by (simp add: ceil_div_def div_le_mono)

lemma ceil_div_above: "c * 30 < m \<Longrightarrow> c < ceil_div m 30"
  unfolding ceil_div_def by arith

lemma ceil_div_range: "1 \<le> C \<Longrightarrow> m \<le> 30 * C - 1 \<Longrightarrow> ceil_div m 30 \<le> C"
  unfolding ceil_div_def by arith


section \<open>Rejected calls\<close>

text \<open>
  Claim C8.  A call of \<open>quote\<close> with an empty proof fails with the
  invalid-proof error (\<open>require(proof.length > 0, "Empty proof")\<close> is the first
  statement), and the storage after the call is the storage before it: no
  result record is written, no grant is added, no event is emitted.
\<close>

theorem C8_empty_proof_rejected:
  "quote fhe sender minutesExt [] s = Inl (Revert ''Empty proof'') \<and>
   error_class (Revert ''Empty proof'') = Some InvalidProofError \<and>
   after_quote s (quote fhe sender minutesExt [] s) = s \<and>
   lastFee (after_quote s (quote fhe sender minutesExt [] s)) = lastFee s \<and>
   acl (after_quote s (quote fhe sender minutesExt [] s)) = acl s \<and>
   events (after_quote s (quote fhe sender minutesExt [] s)) = events s"
  by (simp add: quote_def after_quote_def error_class_def)

text \<open>
  Claim C6.  A call of \<open>setPricePerBlock\<close>, \<open>setMaxBlocks\<close> or
  \<open>transferOwnership\<close> by an account other than the owner fails with the
  not-authorized error, whatever its argument, and leaves the storage (so the
  price, the cap and the owner) unchanged.
\<close>

theorem C6_unauthorized_rejected:
  assumes "sender \<noteq> owner s"
  shows "setPricePerBlock sender newPrice s = Inl (Revert ''Not owner'') \<and>
         setMaxBlocks sender newMax s = Inl (Revert ''Not owner'') \<and>
         transferOwnership sender n s = Inl (Revert ''Not owner'') \<and>
         error_class (Revert ''Not owner'') = Some NotAuthorizedError \<and>
         after_call s (setPricePerBlock sender newPrice s) = s \<and>
         after_call s (setMaxBlocks sender newMax s) = s \<and>
         after_call s (transferOwnership sender n s) = s"
  using assms
  by (simp add: setPricePerBlock_def setMaxBlocks_def transferOwnership_def onlyOwner_def
      after_call_def error_class_def)

theorem C6_unauthorized_rejected_witness:
  "(2 :: address) \<noteq> owner (deployment 50 96) \<and>
   setPricePerBlock 2 75 (deployment 50 96) = Inl (Revert ''Not owner'') \<and>
   setMaxBlocks 2 0 (deployment 50 96) = Inl (Revert ''Not owner'') \<and>
   transferOwnership 2 2 (deployment 50 96) = Inl (Revert ''Not owner'') \<and>
   pricePerBlock (after_call (deployment 50 96) (setPricePerBlock 2 75 (deployment 50 96))) = 50 \<and>
   maxBlocks (after_call (deployment 50 96) (setMaxBlocks 2 0 (deployment 50 96))) = 96 \<and>
   owner (after_call (deployment 50 96) (transferOwnership 2 2 (deployment 50 96))) = 1"
proof -
  have h: "(2 :: address) \<noteq> owner (deployment 50 96)" by (simp add: deployment_def)
  from C6_unauthorized_rejected [OF h, of 75 0 2] h show ?thesis
    by (simp add: deployment_def after_call_def)
qed

text \<open>
  Claim C7.  In every reachable state the price per block and the cap are
  positive.  Construction succeeds exactly when both initial values are
  positive; the owner's call of a setter with zero, or of
  \<open>transferOwnership\<close> with the zero address, fails with the invalid-policy
  error; such a call by anyone leaves the storage unchanged (for another
  caller the ownership check fails first); each setter keeps the other field
  and leaves its own positive, and \<open>transferOwnership\<close> and \<open>quote\<close> change
  neither field.
\<close>

theorem C7_policy_positive:
  assumes "reachable fhe s"
  shows "(0 < pricePerBlock s \<and> 0 < maxBlocks s) \<and>
         (\<not> isl (constructor contract deployer p m)) = (0 < p \<and> 0 < m) \<and>
         setPricePerBlock (owner s) 0 s = Inl (Revert ''price=0'') \<and>
         setMaxBlocks (owner s) 0 s = Inl (Revert ''maxBlocks=0'') \<and>
         transferOwnership (owner s) 0 s = Inl (Revert ''Zero owner'') \<and>
         error_class (Revert ''price=0'') = Some InvalidPolicyError \<and>
         error_class (Revert ''maxBlocks=0'') = Some InvalidPolicyError \<and>
         error_class (Revert ''Zero owner'') = Some InvalidPolicyError \<and>
         after_call s (setPricePerBlock sender 0 s) = s \<and>
         after_call s (setMaxBlocks sender 0 s) = s \<and>
         after_call s (transferOwnership sender 0 s) = s \<and>
         0 < pricePerBlock (after_call s (setPricePerBlock sender p' s)) \<and>
         maxBlocks (after_call s (setPricePerBlock sender p' s)) = maxBlocks s \<and>
         0 < maxBlocks (after_call s (setMaxBlocks sender m' s)) \<and>
         pricePerBlock (after_call s (setMaxBlocks sender m' s)) = pricePerBlock s \<and>
         pricePerBlock (after_call s (transferOwnership sender n s)) = pricePerBlock s \<and>
         maxBlocks (after_call s (transferOwnership sender n s)) = maxBlocks s \<and>
         pricePerBlock (after_quote s (quote fhe sender ext inputProof s)) = pricePerBlock s \<and>
         maxBlocks (after_quote s (quote fhe sender ext inputProof s)) = maxBlocks s"
proof -
  from reachable_policy [OF assms] have pos: "0 < pricePerBlock s" "0 < maxBlocks s" by simp_all
  have ctor: "(\<not> isl (constructor contract deployer p m)) = (0 < p \<and> 0 < m)"
    by (simp add: constructor_def)
  have setters: "setPricePerBlock (owner s) 0 s = Inl (Revert ''price=0'')"
    "setMaxBlocks (owner s) 0 s = Inl (Revert ''maxBlocks=0'')"
    "transferOwnership (owner s) 0 s = Inl (Revert ''Zero owner'')"
    by (simp_all add: setPricePerBlock_def setMaxBlocks_def transferOwnership_def onlyOwner_def)
  have classes: "error_class (Revert ''price=0'') = Some InvalidPolicyError"
    "error_class (Revert ''maxBlocks=0'') = Some InvalidPolicyError"
    "error_class (Revert ''Zero owner'') = Some InvalidPolicyError"
    by (simp_all add: error_class_def)
  have zero: "after_call s (setPricePerBlock sender 0 s) = s"
    "after_call s (setMaxBlocks sender 0 s) = s"
    "after_call s (transferOwnership sender 0 s) = s"
    by (simp_all add: setPricePerBlock_def setMaxBlocks_def transferOwnership_def onlyOwner_def
        after_call_def)
  have price: "0 < pricePerBlock (after_call s (setPricePerBlock sender p' s))"
    "maxBlocks (after_call s (setPricePerBlock sender p' s)) = maxBlocks s"
    using pos by (simp_all add: setPricePerBlock_def onlyOwner_def after_call_def)
  have cap: "0 < maxBlocks (after_call s (setMaxBlocks sender m' s))"
    "pricePerBlock (after_call s (setMaxBlocks sender m' s)) = pricePerBlock s"
    using pos by (simp_all add: setMaxBlocks_def onlyOwner_def after_call_def)
  have transfer: "pricePerBlock (after_call s (transferOwnership sender n s)) = pricePerBlock s"
    "maxBlocks (after_call s (transferOwnership sender n s)) = maxBlocks s"
    by (simp_all add: transferOwnership_def onlyOwner_def after_call_def)
  have q: "pricePerBlock (after_quote s (quote fhe sender ext inputProof s)) = pricePerBlock s \<and>
           maxBlocks (after_quote s (quote fhe sender ext inputProof s)) = maxBlocks s"
  proof (cases "quote fhe sender ext inputProof s")
    case (Inl e)
    then show ?thesis by (simp add: after_quote_def)
  next
    case (Inr r)
    obtain h s' where r: "r = (h, s')" by (cases r)
    from quote_Inr [of fhe sender ext inputProof s h s'] Inr r show ?thesis
      by (auto simp: after_quote_def)
  qed
  from pos ctor setters classes zero price cap transfer q show ?thesis by simp
qed

theorem C7_policy_positive_witness:
  "reachable toy_fhevm (deployment 50 96) \<and>
   0 < pricePerBlock (deployment 50 96) \<and> 0 < maxBlocks (deployment 50 96) \<and>
   isl (constructor 99 1 0 96) \<and> isl (constructor 99 1 50 0) \<and>
   setPricePerBlock 1 0 (deployment 50 96) = Inl (Revert ''price=0'') \<and>
   setMaxBlocks 1 0 (deployment 50 96) = Inl (Revert ''maxBlocks=0'') \<and>
   transferOwnership 1 0 (deployment 50 96) = Inl (Revert ''Zero owner'') \<and>
   pricePerBlock (after_call (deployment 50 96) (setPricePerBlock 1 75 (deployment 50 96))) = 75 \<and>
   maxBlocks (after_call (deployment 50 96) (setMaxBlocks 1 48 (deployment 50 96))) = 48"
proof -
  have r: "reachable toy_fhevm (deployment 50 96)"
    by (rule reachable.deployed [of 99 1 50 96]) (simp add: constructor_def deployment_def)
  from C7_policy_positive [OF r, of 99 1 0 96] C7_policy_positive [OF r, of 99 1 50 0]
    C7_policy_positive [OF r, of 99 1 50 96 1 75 48] r
  show ?thesis
    by (simp add: deployment_def setPricePerBlock_def setMaxBlocks_def onlyOwner_def after_call_def)
qed

section \<open>The block count\<close>

text \<open>
  Claim C2.  Whatever the cap, an input of more than \<open>maxBlocks * 30\<close>
  minutes, up to the largest 64-bit value (where the ladder has run out of
  quotient bits), leaves exactly \<open>maxBlocks\<close> as the block count after the cap
  step of \<open>quote\<close>.
\<close>

theorem C2_cap_enforced:
  assumes "unat maxBlocks' * 30 < unat (plain rem)"
  shows "\<exists>blocks n. quote_ceil fhe maxBlocks' rem = Inr (blocks, n) \<and>
           unat (plain (quote_cap fhe maxBlocks' blocks)) = unat maxBlocks' \<and>
           plain (quote_cap fhe maxBlocks' blocks) = ucast maxBlocks'"
proof -
  from quote_ceil_plain [of fhe maxBlocks' rem]
  obtain blocks n where run: "quote_ceil fhe maxBlocks' rem = Inr (blocks, n)" by blast
  from ceil_div_above [OF assms] blocks_plain [OF run]
  have u: "unat (plain (quote_cap fhe maxBlocks' blocks)) = unat maxBlocks'" by simp
  then have "unat (plain (quote_cap fhe maxBlocks' blocks)) = unat (ucast maxBlocks' :: 64 word)"
    by (simp only: unat_ucast_16_64)
  then have "plain (quote_cap fhe maxBlocks' blocks) = ucast maxBlocks'"
    by (simp only: word_unat_eq_iff)
  with run u show ?thesis by blast
qed

theorem C2_cap_enforced_witness:
  "unat (2 :: 16 word) * 30 < unat (plain \<lparr>handle = 7, plain = 18446744073709551615\<rparr>) \<and>
   quote_ceil toy_fhevm 2 \<lparr>handle = 7, plain = 18446744073709551615\<rparr>
     = Inr (\<lparr>handle = 35209, plain = 4\<rparr>, 2) \<and>
   plain (quote_cap toy_fhevm 2 \<lparr>handle = 35209, plain = 4\<rparr>) = 2"
proof -
  have h: "unat (2 :: 16 word) * 30 < unat (plain \<lparr>handle = 7, plain = 18446744073709551615\<rparr>)"
    by simp
  have run: "quote_ceil toy_fhevm 2 \<lparr>handle = 7, plain = 18446744073709551615\<rparr>
     = Inr (\<lparr>handle = 35209, plain = 4\<rparr>, 2)"
    by (simp add: run_defs)
  from C2_cap_enforced [OF h, of toy_fhevm] run h show ?thesis by simp
qed

text \<open>
  Claim C4.  For a fixed cap the block count after the cap step is monotone
  in the input, over all 64-bit inputs.
\<close>

theorem C4_blocks_monotone:
  assumes "plain rem1 < plain rem2"
  shows "\<exists>blocks1 n1 blocks2 n2.
           quote_ceil fhe maxBlocks' rem1 = Inr (blocks1, n1) \<and>
           quote_ceil fhe maxBlocks' rem2 = Inr (blocks2, n2) \<and>
           plain (quote_cap fhe maxBlocks' blocks1) \<le> plain (quote_cap fhe maxBlocks' blocks2)"
proof -
  from quote_ceil_plain [of fhe maxBlocks' rem1]
  obtain blocks1 n1 where run1: "quote_ceil fhe maxBlocks' rem1 = Inr (blocks1, n1)" by blast
  from quote_ceil_plain [of fhe maxBlocks' rem2]
  obtain blocks2 n2 where run2: "quote_ceil fhe maxBlocks' rem2 = Inr (blocks2, n2)" by blast
  from assms have "unat (plain rem1) \<le> unat (plain rem2)" by (simp add: word_less_nat_alt)
  from ceil_div_mono [OF this] blocks_plain [OF run1] blocks_plain [OF run2]
  have "unat (plain (quote_cap fhe maxBlocks' blocks1)) \<le> unat (plain (quote_cap fhe maxBlocks' blocks2))"
    by simp
  then have "plain (quote_cap fhe maxBlocks' blocks1) \<le> plain (quote_cap fhe maxBlocks' blocks2)"
    by (simp only: word_le_nat_alt)
  with run1 run2 show ?thesis by blast
qed

theorem C4_blocks_monotone_witness:
  "plain \<lparr>handle = 60, plain = 60\<rparr> < plain \<lparr>handle = 7, plain = 18446744073709551615\<rparr> \<and>
   quote_ceil toy_fhevm 2 \<lparr>handle = 60, plain = 60\<rparr> = Inr (\<lparr>handle = 36216, plain = 2\<rparr>, 2) \<and>
   quote_ceil toy_fhevm 2 \<lparr>handle = 7, plain = 18446744073709551615\<rparr>
     = Inr (\<lparr>handle = 35209, plain = 4\<rparr>, 2) \<and>
   plain (quote_cap toy_fhevm 2 \<lparr>handle = 36216, plain = 2\<rparr>)
     \<le> plain (quote_cap toy_fhevm 2 \<lparr>handle = 35209, plain = 4\<rparr>)"
proof -
  have h: "plain \<lparr>handle = 60, plain = 60\<rparr> < plain \<lparr>handle = 7, plain = 18446744073709551615\<rparr>"
    by simp
  have run1: "quote_ceil toy_fhevm 2 \<lparr>handle = 60, plain = 60\<rparr> = Inr (\<lparr>handle = 36216, plain = 2\<rparr>, 2)"
    by (simp add: run_defs)
  have run2: "quote_ceil toy_fhevm 2 \<lparr>handle = 7, plain = 18446744073709551615\<rparr>
     = Inr (\<lparr>handle = 35209, plain = 4\<rparr>, 2)"
    by (simp add: run_defs)
  from C4_blocks_monotone [OF h, of toy_fhevm 2] run1 run2 h show ?thesis by simp
qed

text \<open>
  Claim C5.  For a cap of at least 1, \<open>_msbPos\<close> returns the position of its
  highest set bit, \<open>floor (log2 maxBlocks)\<close>; the ladder of \<open>quote\<close> then runs
  exactly \<open>_msbPos(maxBlocks) + 1\<close> times, at most 16 times, for every
  encrypted input: the count is a function of the cap alone.
\<close>

theorem C5_fixed_iterations:
  assumes "0 < maxBlocks'"
  shows "int (unat (msbPos maxBlocks')) = \<lfloor>log 2 (real (unat maxBlocks'))\<rfloor> \<and>
         2 ^ unat (msbPos maxBlocks') \<le> unat maxBlocks' \<and>
         unat maxBlocks' < 2 ^ (unat (msbPos maxBlocks') + 1) \<and>
         unat (msbPos maxBlocks') + 1 \<le> 16 \<and>
         (\<exists>blocks. quote_ceil fhe maxBlocks' rem = Inr (blocks, unat (msbPos maxBlocks') + 1)) \<and>
         (\<exists>blocks. quote_ceil fhe maxBlocks' rem' = Inr (blocks, unat (msbPos maxBlocks') + 1))"
proof -
  from assms have "1 \<le> unat maxBlocks'" by (simp add: word_less_nat_alt)
  from msbPos_between [OF this] msbPos_log [OF assms]
    quote_ceil_plain [of fhe maxBlocks' rem] quote_ceil_plain [of fhe maxBlocks' rem']
  show ?thesis by auto
qed

theorem C5_fixed_iterations_witness:
  "(0 :: 16 word) < 96 \<and> msbPos 96 = 6 \<and> \<lfloor>log 2 (real (unat (96 :: 16 word)))\<rfloor> = 6 \<and>
   (\<exists>blocks. quote_ceil toy_fhevm 96 \<lparr>handle = 7, plain = 1\<rparr> = Inr (blocks, 7)) \<and>
   (\<exists>blocks. quote_ceil toy_fhevm 96 \<lparr>handle = 8, plain = 18446744073709551615\<rparr> = Inr (blocks, 7))"
proof -
  have h: "(0 :: 16 word) < 96" by simp
  have m: "msbPos 96 = 6" by (simp add: msbPos_def msbPos_loop.simps)
  from C5_fixed_iterations [OF h, of toy_fhevm "\<lparr>handle = 7, plain = 1\<rparr>"
      "\<lparr>handle = 8, plain = 18446744073709551615\<rparr>"] h m
  show ?thesis by simp
qed

section \<open>The fee\<close>

text \<open>
  Claim C3, as the code has it.  After the cap the block count is at most
  \<open>maxBlocks\<close>, and the fee is the product of the block count and the price
  modulo \<open>2^64\<close>.  The contract accepts every non-zero 64-bit price, so the
  product can pass \<open>2^64\<close> and wrap; it is the exact product, bounded by
  \<open>maxBlocks * pricePerBlock\<close>, whenever \<open>maxBlocks * pricePerBlock < 2^64\<close>.
\<close>

theorem C3_fee_product_mod:
  "\<exists>blocks n.
     quote_ceil fhe maxBlocks' rem = Inr (blocks, n) \<and>
     unat (plain (quote_cap fhe maxBlocks' blocks)) \<le> unat maxBlocks' \<and>
     unat (plain (FHE_mul fhe (quote_cap fhe maxBlocks' blocks) (asEuint64 fhe price)))
       = (unat (plain (quote_cap fhe maxBlocks' blocks)) * unat price) mod 2 ^ 64 \<and>
     (unat maxBlocks' * unat price < 2 ^ 64 \<longrightarrow>
        unat (plain (FHE_mul fhe (quote_cap fhe maxBlocks' blocks) (asEuint64 fhe price)))
          = unat (plain (quote_cap fhe maxBlocks' blocks)) * unat price \<and>
        unat (plain (quote_cap fhe maxBlocks' blocks)) * unat price \<le> unat maxBlocks' * unat price)"
proof -
  from quote_ceil_plain [of fhe maxBlocks' rem]
  obtain blocks n where run: "quote_ceil fhe maxBlocks' rem = Inr (blocks, n)" by blast
  define c where "c = unat (plain (quote_cap fhe maxBlocks' blocks))"
  from blocks_plain [OF run] have le: "c \<le> unat maxBlocks'" by (simp add: c_def)
  then have le': "c * unat price \<le> unat maxBlocks' * unat price" by (rule mult_le_mono1)
  have fee: "unat (plain (FHE_mul fhe (quote_cap fhe maxBlocks' blocks) (asEuint64 fhe price)))
       = (c * unat price) mod 2 ^ 64"
    by (simp only: fee_plain c_def)
  have "unat maxBlocks' * unat price < 2 ^ 64 \<longrightarrow>
        unat (plain (FHE_mul fhe (quote_cap fhe maxBlocks' blocks) (asEuint64 fhe price)))
          = c * unat price \<and> c * unat price \<le> unat maxBlocks' * unat price"
  proof
    assume "unat maxBlocks' * unat price < 2 ^ 64"
    with le' have "c * unat price < 2 ^ 64" by (rule le_less_trans)
    then have "(c * unat price) mod 2 ^ 64 = c * unat price" by (rule mod_less)
    with fee le' show "unat (plain (FHE_mul fhe (quote_cap fhe maxBlocks' blocks) (asEuint64 fhe price)))
          = c * unat price \<and> c * unat price \<le> unat maxBlocks' * unat price"
      by (simp only: simp_thms)
  qed
  with run le fee show ?thesis unfolding c_def by blast
qed

theorem C3_fee_product_mod_witness:
  "unat (2 :: 16 word) * unat (50 :: 64 word) < 2 ^ 64 \<and>
   quote_ceil toy_fhevm 2 \<lparr>handle = 60, plain = 60\<rparr> = Inr (\<lparr>handle = 36216, plain = 2\<rparr>, 2) \<and>
   unat (plain (FHE_mul toy_fhevm (quote_cap toy_fhevm 2 \<lparr>handle = 36216, plain = 2\<rparr>)
                  (asEuint64 toy_fhevm 50)))
     = unat (plain (quote_cap toy_fhevm 2 \<lparr>handle = 36216, plain = 2\<rparr>)) * unat (50 :: 64 word) \<and>
   unat (plain (quote_cap toy_fhevm 2 \<lparr>handle = 36216, plain = 2\<rparr>)) * unat (50 :: 64 word)
     \<le> unat (2 :: 16 word) * unat (50 :: 64 word)"
proof -
  have h: "unat (2 :: 16 word) * unat (50 :: 64 word) < 2 ^ 64" by simp
  have run: "quote_ceil toy_fhevm 2 \<lparr>handle = 60, plain = 60\<rparr> = Inr (\<lparr>handle = 36216, plain = 2\<rparr>, 2)"
    by (simp add: run_defs)
  from C3_fee_product_mod [of toy_fhevm 2 "\<lparr>handle = 60, plain = 60\<rparr>" 50] run h
  show ?thesis by auto
qed

text \<open>
  The claim as stated fails: with the price \<open>2^63\<close> and the cap 2, both
  accepted by the constructor, an input of 60 minutes gives 2 blocks, the
  product is \<open>2^64\<close>, and the fee wraps to 0.
\<close>

theorem C3_counterexample:
  "constructor 99 1 9223372036854775808 2 = Inr (deployment 9223372036854775808 2) \<and>
   quote_ceil toy_fhevm 2 \<lparr>handle = 60, plain = 60\<rparr> = Inr (\<lparr>handle = 36216, plain = 2\<rparr>, 2) \<and>
   unat (plain (quote_cap toy_fhevm 2 \<lparr>handle = 36216, plain = 2\<rparr>)) = 2 \<and>
   \<not> unat (plain (quote_cap toy_fhevm 2 \<lparr>handle = 36216, plain = 2\<rparr>))
       * unat (9223372036854775808 :: 64 word) < 2 ^ 64 \<and>
   unat (plain (FHE_mul toy_fhevm (quote_cap toy_fhevm 2 \<lparr>handle = 36216, plain = 2\<rparr>)
                  (asEuint64 toy_fhevm 9223372036854775808))) = 0 \<and>
   unat (plain (FHE_mul toy_fhevm (quote_cap toy_fhevm 2 \<lparr>handle = 36216, plain = 2\<rparr>)
                  (asEuint64 toy_fhevm 9223372036854775808)))
     \<noteq> unat (plain (quote_cap toy_fhevm 2 \<lparr>handle = 36216, plain = 2\<rparr>))
         * unat (9223372036854775808 :: 64 word)"
  by (simp add: run_defs constructor_def)

text \<open>
  Claim C1, as the code has it.  A call of \<open>quote\<close> with a non-empty proof the
  verifier accepts succeeds, and the fee it stores for the caller decrypts to
  \<open>min (ceil (minutes / 30)) maxBlocks * pricePerBlock\<close> modulo \<open>2^64\<close>, which
  is that product itself whenever the product is below \<open>2^64\<close>.  Before the
  cap step the block count is \<open>ceil (minutes / 30)\<close> for every input up to
  \<open>30 * 2^(floor (log2 maxBlocks) + 1) - 1\<close>.
\<close>

theorem C1_quote_fee:
  assumes "inputProof \<noteq> []"
    and "verify_input fhe minutesExt inputProof sender = Some minutes"
    and "0 < maxBlocks s"
  shows "\<exists>blocks n h s'.
     quote_ceil fhe (maxBlocks s) \<lparr>handle = minutesExt, plain = minutes\<rparr> = Inr (blocks, n) \<and>
     quote fhe sender minutesExt inputProof s = Inr (h, s') \<and>
     h = handle (lastFee s' sender) \<and>
     unat (plain (lastFee s' sender))
       = (min (nat \<lceil>real (unat minutes) / 30\<rceil>) (unat (maxBlocks s)) * unat (pricePerBlock s))
           mod 2 ^ 64 \<and>
     (min (nat \<lceil>real (unat minutes) / 30\<rceil>) (unat (maxBlocks s)) * unat (pricePerBlock s)
        < 2 ^ 64 \<longrightarrow>
      unat (plain (lastFee s' sender))
        = min (nat \<lceil>real (unat minutes) / 30\<rceil>) (unat (maxBlocks s)) * unat (pricePerBlock s)) \<and>
     (unat minutes \<le> 30 * 2 ^ (nat \<lfloor>log 2 (real (unat (maxBlocks s)))\<rfloor> + 1) - 1 \<longrightarrow>
      unat (plain blocks) = nat \<lceil>real (unat minutes) / 30\<rceil>)"
proof -
  define rem where "rem = \<lparr>handle = minutesExt, plain = minutes\<rparr>"
  define K where "K = unat (msbPos (maxBlocks s)) + 1"
  define c where "c = ceil_div (unat minutes) 30"
  have m: "unat (plain rem) = unat minutes" by (simp add: rem_def)
  have c: "nat \<lceil>real (unat minutes) / 30\<rceil> = c" by (simp only: c_def ceil_div_real)
  from quote_run [OF assms(1,2), of s]
  obtain blocks fee where run: "quote_ceil fhe (maxBlocks s) rem = Inr (blocks, K)"
    and fee: "fee = FHE_mul fhe (quote_cap fhe (maxBlocks s) blocks) (asEuint64 fhe (pricePerBlock s))"
    and q: "quote fhe sender minutesExt inputProof s =
             Inr (handle fee,
                  s\<lparr>lastFee := (lastFee s)(sender := fee),
                    acl := insert (handle fee, sender) (insert (handle fee, self s) (acl s)),
                    events := events s @ [(sender, handle fee)]\<rparr>)"
    unfolding rem_def K_def by blast
  define s' where "s' = s\<lparr>lastFee := (lastFee s)(sender := fee),
                    acl := insert (handle fee, sender) (insert (handle fee, self s) (acl s)),
                    events := events s @ [(sender, handle fee)]\<rparr>"
  have stored: "lastFee s' sender = fee" by (simp add: s'_def)
  from blocks_plain [OF run] have capped: "unat (plain (quote_cap fhe (maxBlocks s) blocks))
      = min c (unat (maxBlocks s))" by (simp only: m c_def)
  have val: "unat (plain fee) = (min c (unat (maxBlocks s)) * unat (pricePerBlock s)) mod 2 ^ 64"
    by (simp only: fee fee_plain capped)
  have exact: "min c (unat (maxBlocks s)) * unat (pricePerBlock s) < 2 ^ 64 \<longrightarrow>
      unat (plain fee) = min c (unat (maxBlocks s)) * unat (pricePerBlock s)"
    by (simp only: val) simp
  have pre: "unat minutes \<le> 30 * 2 ^ (nat \<lfloor>log 2 (real (unat (maxBlocks s)))\<rfloor> + 1) - 1 \<longrightarrow>
      unat (plain blocks) = c"
  proof
    assume range: "unat minutes \<le> 30 * 2 ^ (nat \<lfloor>log 2 (real (unat (maxBlocks s)))\<rfloor> + 1) - 1"
    have "nat \<lfloor>log 2 (real (unat (maxBlocks s)))\<rfloor> = nat (int (unat (msbPos (maxBlocks s))))"
      by (simp only: msbPos_log [OF assms(3)])
    then have "nat \<lfloor>log 2 (real (unat (maxBlocks s)))\<rfloor> + 1 = K"
      by (simp only: nat_int K_def)
    with range have "unat minutes \<le> 30 * 2 ^ K - 1" by (simp only:)
    then have "c \<le> 2 ^ K" unfolding c_def by (intro ceil_div_range) simp_all
    moreover from quote_ceil_plain [of fhe "maxBlocks s" rem] run
    have "unat (plain blocks) = min c (2 ^ K)" by (simp add: m c_def K_def)
    ultimately show "unat (plain blocks) = c" by simp
  qed
  from run q stored val exact pre show ?thesis
    unfolding rem_def c s'_def [symmetric] by blast
qed

theorem C1_quote_fee_witness:
  "[1 :: 8 word] \<noteq> [] \<and> verify_input toy_fhevm 31 [1] 5 = Some 31 \<and>
   0 < maxBlocks (deployment 50 2) \<and>
   min (nat \<lceil>real (unat (31 :: 64 word)) / 30\<rceil>) (unat (maxBlocks (deployment 50 2)))
     * unat (pricePerBlock (deployment 50 2)) < 2 ^ 64 \<and>
   unat (31 :: 64 word)
     \<le> 30 * 2 ^ (nat \<lfloor>log 2 (real (unat (maxBlocks (deployment 50 2))))\<rfloor> + 1) - 1 \<and>
   quote_ceil toy_fhevm 2 \<lparr>handle = 31, plain = 31\<rparr> = Inr (\<lparr>handle = 35665, plain = 2\<rparr>, 2) \<and>
   quote toy_fhevm 5 31 [1] (deployment 50 2)
     = Inr (74393,
            \<lparr>self = 99, owner = 1, pricePerBlock = 50, maxBlocks = 2,
             lastFee = (\<lambda>a. uninitialized)(5 := \<lparr>handle = 74393, plain = 100\<rparr>),
             acl = {(74393, 5), (74393, 99)}, events = [(5, 74393)]\<rparr>) \<and>
   unat (plain (lastFee (after_quote (deployment 50 2) (quote toy_fhevm 5 31 [1] (deployment 50 2))) 5))
     = 2 * 50"
proof -
  have a: "[1 :: 8 word] \<noteq> []" by simp
  have b: "verify_input toy_fhevm 31 [1] 5 = Some 31" by (simp add: toy_fhevm_def)
  have c: "0 < maxBlocks (deployment 50 2)" by (simp add: deployment_def)
  have d: "min (nat \<lceil>real (unat (31 :: 64 word)) / 30\<rceil>) (unat (maxBlocks (deployment 50 2)))
     * unat (pricePerBlock (deployment 50 2)) < 2 ^ 64" by (simp add: deployment_def)
  have e: "unat (31 :: 64 word)
     \<le> 30 * 2 ^ (nat \<lfloor>log 2 (real (unat (maxBlocks (deployment 50 2))))\<rfloor> + 1) - 1"
    by (simp add: deployment_def)
  have run: "quote_ceil toy_fhevm 2 \<lparr>handle = 31, plain = 31\<rparr> = Inr (\<lparr>handle = 35665, plain = 2\<rparr>, 2)"
    by (simp add: run_defs)
  have q: "quote toy_fhevm 5 31 [1] (deployment 50 2)
     = Inr (74393,
            \<lparr>self = 99, owner = 1, pricePerBlock = 50, maxBlocks = 2,
             lastFee = (\<lambda>a. uninitialized)(5 := \<lparr>handle = 74393, plain = 100\<rparr>),
             acl = {(74393, 5), (74393, 99)}, events = [(5, 74393)]\<rparr>)"
    by (simp add: run_defs)
  from C1_quote_fee [OF a b c] d e
  have "unat (plain (lastFee (after_quote (deployment 50 2) (quote toy_fhevm 5 31 [1] (deployment 50 2))) 5))
     = min (nat \<lceil>real (unat (31 :: 64 word)) / 30\<rceil>) (unat (maxBlocks (deployment 50 2)))
     * unat (pricePerBlock (deployment 50 2))"
    by (auto simp: after_quote_def)
  then have "unat (plain (lastFee (after_quote (deployment 50 2) (quote toy_fhevm 5 31 [1] (deployment 50 2))) 5))
     = 2 * 50" by (simp add: deployment_def)
  with a b c d e run q show ?thesis by (simp only: simp_thms)
qed

text \<open>
  The claim as stated fails: with the price \<open>2^64 - 1\<close> and the cap 2, an
  input of 31 minutes is in the stated range and counts 2 blocks, but the
  stored fee decrypts to \<open>2^64 - 2\<close>, not to \<open>2 * (2^64 - 1)\<close>.
\<close>

theorem C1_counterexample:
  "constructor 99 1 18446744073709551615 2 = Inr (deployment 18446744073709551615 2) \<and>
   0 < (31 :: 64 word) \<and>
   0 < pricePerBlock (deployment 18446744073709551615 2) \<and>
   0 < maxBlocks (deployment 18446744073709551615 2) \<and>
   unat (31 :: 64 word)
     \<le> 30 * 2 ^ (nat \<lfloor>log 2 (real (unat (maxBlocks (deployment 18446744073709551615 2))))\<rfloor> + 1) - 1 \<and>
   verify_input toy_fhevm 31 [1] 5 = Some 31 \<and>
   quote toy_fhevm 5 31 [1] (deployment 18446744073709551615 2)
     = Inr (18446744073709625958,
            \<lparr>self = 99, owner = 1, pricePerBlock = 18446744073709551615, maxBlocks = 2,
             lastFee = (\<lambda>a. uninitialized)
               (5 := \<lparr>handle = 18446744073709625958, plain = 18446744073709551614\<rparr>),
             acl = {(18446744073709625958, 5), (18446744073709625958, 99)},
             events = [(5, 18446744073709625958)]\<rparr>) \<and>
   unat (plain (lastFee (after_quote (deployment 18446744073709551615 2)
                  (quote toy_fhevm 5 31 [1] (deployment 18446744073709551615 2))) 5))
     = 18446744073709551614 \<and>
   min (nat \<lceil>real (unat (31 :: 64 word)) / 30\<rceil>)
       (unat (maxBlocks (deployment 18446744073709551615 2)))
     * unat (pricePerBlock (deployment 18446744073709551615 2)) = 36893488147419103230 \<and>
   unat (plain (lastFee (after_quote (deployment 18446744073709551615 2)
                  (quote toy_fhevm 5 31 [1] (deployment 18446744073709551615 2))) 5))
     \<noteq> min (nat \<lceil>real (unat (31 :: 64 word)) / 30\<rceil>)
           (unat (maxBlocks (deployment 18446744073709551615 2)))
         * unat (pricePerBlock (deployment 18446744073709551615 2))"
proof -
  have wrap: "(36893488147419103230 :: 64 word) = 18446744073709551614" by simp
  show ?thesis by (simp add: run_defs constructor_def after_quote_def wrap)
qed

section \<open>Result custody\<close>




text \<open>
  Claim C10.  \<open>getMyFeeHandle\<close> has no failing path.  For an account with no
  successful \<open>quote\<close> so far (no \<open>Quoted\<close> event of its own in the log) it
  returns the handle of the never-written \<open>_lastFee\<close> slot, the all-zero
  \<open>bytes32\<close>.
\<close>

theorem C10_unset_handle_zero:
  assumes "reachable fhe s" and "a \<notin> fst ` set (events s)"
  shows "getMyFeeHandle a s = 0"
proof -
  from assms(2) have "latest_handle a (events s) = None" by (simp add: latest_handle_None)
  with reachable_handle [OF assms(1), of a] show ?thesis by simp
qed

theorem C10_unset_handle_zero_witness:
  "reachable toy_fhevm
     \<lparr>self = 99, owner = 1, pricePerBlock = 50, maxBlocks = 2,
      lastFee = (\<lambda>a. uninitialized)(5 := \<lparr>handle = 74393, plain = 100\<rparr>),
      acl = {(74393, 5), (74393, 99)}, events = [(5, 74393)]\<rparr> \<and>
   (6 :: address) \<notin> fst ` set [(5, 74393 :: bytes32)] \<and>
   getMyFeeHandle 6
     \<lparr>self = 99, owner = 1, pricePerBlock = 50, maxBlocks = 2,
      lastFee = (\<lambda>a. uninitialized)(5 := \<lparr>handle = 74393, plain = 100\<rparr>),
      acl = {(74393, 5), (74393, 99)}, events = [(5, 74393)]\<rparr> = 0 \<and>
   getMyFeeHandle 6 (deployment 50 2) = 0"
proof -
  have r0: "reachable toy_fhevm (deployment 50 2)"
    by (rule reachable.deployed [of 99 1 50 2]) (simp add: constructor_def deployment_def)
  have q: "quote toy_fhevm 5 31 [1] (deployment 50 2)
     = Inr (74393,
            \<lparr>self = 99, owner = 1, pricePerBlock = 50, maxBlocks = 2,
             lastFee = (\<lambda>a. uninitialized)(5 := \<lparr>handle = 74393, plain = 100\<rparr>),
             acl = {(74393, 5), (74393, 99)}, events = [(5, 74393)]\<rparr>)"
    by (simp add: run_defs)
  from r0 q have r: "reachable toy_fhevm
     \<lparr>self = 99, owner = 1, pricePerBlock = 50, maxBlocks = 2,
      lastFee = (\<lambda>a. uninitialized)(5 := \<lparr>handle = 74393, plain = 100\<rparr>),
      acl = {(74393, 5), (74393, 99)}, events = [(5, 74393)]\<rparr>"
    by (rule reachable.quoted)
  have n: "(6 :: address) \<notin> fst ` set (events
     \<lparr>self = 99, owner = 1, pricePerBlock = 50, maxBlocks = 2,
      lastFee = (\<lambda>a. uninitialized)(5 := \<lparr>handle = 74393, plain = 100\<rparr>),
      acl = {(74393, 5), (74393, 99)}, events = [(5, 74393)]\<rparr>)" by simp
  have n0: "(6 :: address) \<notin> fst ` set (events (deployment 50 2))" by (simp add: deployment_def)
  from C10_unset_handle_zero [OF r n] C10_unset_handle_zero [OF r0 n0] r show ?thesis by simp
qed

section \<open>Concrete scenarios\<close>

text \<open>
  The scenarios of the specification, with block size 30, price 50 and cap
  96: inputs of 1, 30, 31, 2880 and 5000 minutes give fees of 50, 50, 100,
  4800 and 4800.
\<close>

lemma fee_scenario:
  assumes "plain rem = minutes"
  shows "\<exists>blocks n. quote_ceil fhe 96 rem = Inr (blocks, n) \<and>
           unat (plain (FHE_mul fhe (quote_cap fhe 96 blocks) (asEuint64 fhe 50)))
             = (min (ceil_div (unat minutes) 30) 96 * 50) mod 2 ^ 64"
proof -
  from quote_ceil_plain [of fhe 96 rem]
  obtain blocks n where run: "quote_ceil fhe 96 rem = Inr (blocks, n)" by blast
  from blocks_plain [OF run] assms
  have "unat (plain (quote_cap fhe 96 blocks)) = min (ceil_div (unat minutes) 30) 96" by simp
  then have "unat (plain (FHE_mul fhe (quote_cap fhe 96 blocks) (asEuint64 fhe 50)))
             = (min (ceil_div (unat minutes) 30) 96 * 50) mod 2 ^ 64"
    by (simp only: fee_plain) simp
  with run show ?thesis by blast
qed

lemma fee_scenarios:
  "\<exists>blocks n. quote_ceil fhe 96 \<lparr>handle = h, plain = 1\<rparr> = Inr (blocks, n) \<and>
     unat (plain (FHE_mul fhe (quote_cap fhe 96 blocks) (asEuint64 fhe 50))) = 50"
  "\<exists>blocks n. quote_ceil fhe 96 \<lparr>handle = h, plain = 30\<rparr> = Inr (blocks, n) \<and>
     unat (plain (FHE_mul fhe (quote_cap fhe 96 blocks) (asEuint64 fhe 50))) = 50"
  "\<exists>blocks n. quote_ceil fhe 96 \<lparr>handle = h, plain = 31\<rparr> = Inr (blocks, n) \<and>
     unat (plain (FHE_mul fhe (quote_cap fhe 96 blocks) (asEuint64 fhe 50))) = 100"
  "\<exists>blocks n. quote_ceil fhe 96 \<lparr>handle = h, plain = 2880\<rparr> = Inr (blocks, n) \<and>
     unat (plain (FHE_mul fhe (quote_cap fhe 96 blocks) (asEuint64 fhe 50))) = 4800"
  "\<exists>blocks n. quote_ceil fhe 96 \<lparr>handle = h, plain = 5000\<rparr> = Inr (blocks, n) \<and>
     unat (plain (FHE_mul fhe (quote_cap fhe 96 blocks) (asEuint64 fhe 50))) = 4800"
  using fee_scenario [of "\<lparr>handle = h, plain = 1\<rparr>" 1 fhe]
    fee_scenario [of "\<lparr>handle = h, plain = 30\<rparr>" 30 fhe]
    fee_scenario [of "\<lparr>handle = h, plain = 31\<rparr>" 31 fhe]
    fee_scenario [of "\<lparr>handle = h, plain = 2880\<rparr>" 2880 fhe]
    fee_scenario [of "\<lparr>handle = h, plain = 5000\<rparr>" 5000 fhe]
  by (simp_all add: ceil_div_def)

end
